theory Spec2Isabelle
  imports Complex_Main
begin

section \<open>Retro music player: the playlist and playback logic of \<open>RetroMusicPlayer\<close>\<close>

text \<open>
  The development embeds the methods of the class \<open>RetroMusicPlayer\<close> of
  \<^verbatim>\<open>retro_music_player.py\<close> that read or write the playlist, the current index and
  the playback flags. The object is a record that every method takes and returns.
  Calls into the mixer and the message boxes are appended to two traces kept in the
  record, in call order. Everything a method reads from outside the object (the random
  draw, the mixer's position, what the tag readers and the mixer do with a path) comes
  from a record of the environment. The decorative widgets (theme, album art,
  equalizer and visualizer labels) are not part of the record.
\<close>

subsection \<open>Library functions the methods call\<close>

text \<open>
  \<open>os.path.splitext\<close>, \<open>os.path.basename\<close> (POSIX flavour, separator \<open>/\<close>),
  \<open>str.lower\<close> and \<open>str.endswith\<close>. A \<open>char\<close> is a byte, and \<open>lower\<close> maps the
  ASCII capitals only.
\<close>

fun rfind_from :: "char \<Rightarrow> string \<Rightarrow> int \<Rightarrow> int \<Rightarrow> int" where
  "rfind_from c [] i found = found"
| "rfind_from c (x # xs) i found = rfind_from c xs (i + 1) (if x = c then i else found)"

definition rfind :: "char \<Rightarrow> string \<Rightarrow> int" where
  \<comment> \<open>\<open>p.rfind(c)\<close>: the index of the last \<open>c\<close>, or \<open>-1\<close>\<close>
  "rfind c p = rfind_from c p 0 (- 1)"

definition splitext_ext :: "string \<Rightarrow> string" where
  \<comment> \<open>\<open>os.path.splitext(p)[1]\<close>: the last dot of the last component starts the
      extension, unless only dots come before it in that component\<close>
  "splitext_ext p =
     (let sepIndex = rfind (CHR ''/'') p;
          dotIndex = rfind (CHR ''.'') p
      in if dotIndex > sepIndex \<and>
            list_ex (\<lambda>c. c \<noteq> CHR ''.'')
              (take (nat (dotIndex - (sepIndex + 1))) (drop (nat (sepIndex + 1)) p))
         then drop (nat dotIndex) p
         else [])"

definition basename :: "string \<Rightarrow> string" where
  "basename p = drop (nat (rfind (CHR ''/'') p + 1)) p"

definition lower_char :: "char \<Rightarrow> char" where
  "lower_char c =
     (let n = (of_char c :: nat)
      in if 65 \<le> n \<and> n \<le> 90 then char_of (n + 32) else c)"

definition lower :: "string \<Rightarrow> string" where
  "lower p = map lower_char p"

definition endswith :: "string \<Rightarrow> string \<Rightarrow> bool" where
  "endswith p sfx = (length sfx \<le> length p \<and> drop (length p - length sfx) p = sfx)"

definition py_int :: "real \<Rightarrow> int" where
  \<comment> \<open>\<open>int(x)\<close> on a float: truncation towards zero\<close>
  "py_int x = (if 0 \<le> x then \<lfloor>x\<rfloor> else \<lceil>x\<rceil>)"

definition randint :: "nat \<Rightarrow> int \<Rightarrow> int \<Rightarrow> int" where
  \<comment> \<open>\<open>random.randint(a, b)\<close> for \<open>a \<le> b\<close>, the only way the player calls it: some
      \<open>N\<close> with \<open>a \<le> N \<le> b\<close>, picked by the entropy \<open>e\<close> of the call\<close>
  "randint e a b = a + int e mod (b - a + 1)"

datatype py_error = IndexError | OSError

definition py_index :: "'a list \<Rightarrow> int \<Rightarrow> py_error + 'a" where
  \<comment> \<open>\<open>xs[i]\<close>: an index from \<open>-len(xs)\<close> to \<open>-1\<close> counts from the end, and one
      outside \<open>-len(xs) .. len(xs) - 1\<close> raises\<close>
  "py_index xs i =
     (if 0 \<le> i \<and> i < int (length xs) then Inr (xs ! nat i)
      else if - int (length xs) \<le> i \<and> i < 0 then Inr (xs ! nat (int (length xs) + i))
      else Inl IndexError)"

subsection \<open>The player object and its environment\<close>

datatype mixer_call =
    Fadeout int
  | Load string
  | Play
  | Pause
  | Unpause
  | Set_volume real

datatype dialog =
    Unsupported_Format string
  | File_Error string
  | Playback_Error string
  | Save_Success
  | No_Playlist
  | Load_Success
  | Load_Error

datatype label = No_Track_Selected | Track_Progress string int int

record player =
  playlist :: "string list"
  current_track_index :: int
  is_playing :: bool
  is_shuffled :: bool
  is_repeated :: bool
  crossfade_duration :: real
  playlist_widget :: "(string \<times> int) list"
  track_label :: label
  progress_bar :: int
  play_btn :: string
  shuffle_btn :: string
  repeat_btn :: string
  progress_timer :: "nat option"
  equalizer_timer :: "nat option"
  visualizer_timer :: "nat option"
  mixer_calls :: "mixer_call list"
  dialogs :: "dialog list"

text \<open>
  \<open>playlist_widget\<close> holds one pair per row: the title and the whole seconds that the row's
  text shows. A timer is \<open>Some ms\<close> while it runs. The button texts are kept without
  their leading pictograph.
\<close>

record env =
  entropy :: nat
  get_pos :: int
  get_busy :: bool
  mp3_length :: "string \<Rightarrow> real option"
  tag_title :: "string \<Rightarrow> string option"
  mixer_load_ok :: "string \<Rightarrow> bool"
  can_write :: "string \<Rightarrow> bool"

text \<open>
  \<open>entropy\<close> feeds the one \<open>random.randint\<close> call of a method; \<open>get_pos\<close> and
  \<open>get_busy\<close> are what \<open>pygame.mixer.music\<close> answers; \<open>mp3_length p\<close> is
  \<open>MP3(p).info.length\<close>, or \<open>None\<close> when \<open>MP3(p)\<close> raises; \<open>tag_title p\<close> is the first
  \<open>title\<close> tag that the tag reader of the file's format finds, or \<open>None\<close> when there is
  none or the reader raises; \<open>mixer_load_ok p\<close> tells whether \<open>mixer.music.load(p)\<close>
  goes through (the \<open>play()\<close> after it then does); \<open>can_write p\<close> tells whether
  \<open>open(p, 'w')\<close> does. The trace \<open>mixer_calls\<close> lists the calls that returned.
\<close>

datatype file_content = Json_Paths "string list" | Other_Content

type_synonym disk = "string \<Rightarrow> file_content option"

text \<open>
  The files a method opens by name: \<open>d p = None\<close> when nothing readable is at \<open>p\<close>,
  \<open>Json_Paths ps\<close> for a file holding the JSON array of the strings \<open>ps\<close> (what
  \<open>json.dump\<close> writes for a playlist and \<open>json.load\<close> reads back), \<open>Other_Content\<close>
  for a file that \<open>json.load\<close> rejects. A JSON document of another shape, which
  \<open>json.load\<close> would bind to \<open>self.playlist\<close> as it is, has no counterpart here.
\<close>

definition SUPPORTED_FORMATS :: "string list" where
  "SUPPORTED_FORMATS =
     [''.mp3'', ''.wav'', ''.flac'', ''.ogg'', ''.aac'', ''.wma'', ''.m4a'', ''.aiff'', ''.opus'']"

definition init_player :: player where
  \<comment> \<open>\<open>__init__\<close> and \<open>init_ui\<close>\<close>
  "init_player =
     \<lparr> playlist = [], current_track_index = 0, is_playing = False, is_shuffled = False,
       is_repeated = False, crossfade_duration = 2,
       playlist_widget = [], track_label = No_Track_Selected, progress_bar = 0,
       play_btn = ''Play'', shuffle_btn = ''Shuffle'', repeat_btn = ''Repeat'',
       progress_timer = None, equalizer_timer = None, visualizer_timer = None,
       mixer_calls = [], dialogs = [] \<rparr>"

subsection \<open>Methods\<close>

definition adjust_volume :: "int \<Rightarrow> player \<Rightarrow> player" where
  "adjust_volume v s = s\<lparr>mixer_calls := mixer_calls s @ [Set_volume (real_of_int v / 100)]\<rparr>"

definition get_track_metadata :: "env \<Rightarrow> string \<Rightarrow> string" where
  "get_track_metadata e file =
     (let ext = lower (splitext_ext file)
      in if ext = ''.mp3'' \<or> ext = ''.flac'' \<or> ext = ''.ogg''
         then (case tag_title e file of Some t \<Rightarrow> t | None \<Rightarrow> basename file)
         else basename file)"

definition add_one :: "env \<Rightarrow> string \<Rightarrow> player \<Rightarrow> player" where
  \<comment> \<open>the body of the loop of \<open>add_tracks\<close> and of \<open>dropEvent\<close>\<close>
  "add_one e file s =
     (let file_ext = lower (splitext_ext file)
      in if file_ext \<in> set SUPPORTED_FORMATS
         then
           (let s1 = s\<lparr>playlist := playlist s @ [file]\<rparr>;
                track_name = get_track_metadata e file
            in if file_ext = ''.mp3''
               then (case mp3_length e file of
                       None \<Rightarrow> s1\<lparr>dialogs := dialogs s1 @ [File_Error (basename file)]\<rparr>
                     | Some total_length \<Rightarrow>
                         s1\<lparr>playlist_widget :=
                              playlist_widget s1 @ [(track_name, py_int total_length)]\<rparr>)
               else s1\<lparr>playlist_widget := playlist_widget s1 @ [(track_name, 0)]\<rparr>)
         else s\<lparr>dialogs := dialogs s @ [Unsupported_Format (basename file)]\<rparr>)"

fun add_loop :: "env \<Rightarrow> string list \<Rightarrow> player \<Rightarrow> player" where
  "add_loop e [] s = s"
| "add_loop e (file # files) s = add_loop e files (add_one e file s)"

definition add_tracks :: "env \<Rightarrow> string list \<Rightarrow> player \<Rightarrow> player" where
  \<comment> \<open>\<open>files\<close> is what the file dialog returned\<close>
  "add_tracks e files s = add_loop e files s"

definition dropEvent :: "env \<Rightarrow> string list \<Rightarrow> player \<Rightarrow> player" where
  \<comment> \<open>\<open>urls\<close> are the local files of the dropped URLs\<close>
  "dropEvent e urls s = add_loop e urls s"

definition play_track :: "env \<Rightarrow> player \<Rightarrow> py_error + player" where
  "play_track e s =
     (if playlist s \<noteq> []
      then (case py_index (playlist s) (current_track_index s) of
              Inl err \<Rightarrow> Inl err
            | Inr track \<Rightarrow>
                (let s1 = (if is_playing s
                           then s\<lparr>mixer_calls := mixer_calls s @
                                    [Fadeout (py_int (crossfade_duration s * 1000))]\<rparr>
                           else s)
                 in if mixer_load_ok e track
                    then Inr (s1\<lparr>mixer_calls := mixer_calls s1 @ [Load track, Play],
                                 play_btn := ''Pause'',
                                 is_playing := True,
                                 progress_timer := Some 1000,
                                 equalizer_timer := Some 100,
                                 visualizer_timer := Some 50\<rparr>)
                    else Inr (s1\<lparr>dialogs := dialogs s1 @ [Playback_Error (basename track)]\<rparr>)))
      else Inr s)"

definition play_selected_track :: "env \<Rightarrow> int \<Rightarrow> player \<Rightarrow> py_error + player" where
  \<comment> \<open>\<open>row\<close> is \<open>self.playlist_widget.row(item)\<close>\<close>
  "play_selected_track e row s = play_track e (s\<lparr>current_track_index := row\<rparr>)"

definition toggle_play :: "player \<Rightarrow> player" where
  "toggle_play s =
     (if is_playing s
      then s\<lparr>mixer_calls := mixer_calls s @ [Pause],
             play_btn := ''Play'',
             is_playing := False,
             progress_timer := None,
             equalizer_timer := None,
             visualizer_timer := None\<rparr>
      else s\<lparr>mixer_calls := mixer_calls s @ [Unpause],
             play_btn := ''Pause'',
             is_playing := True,
             progress_timer := Some 1000,
             equalizer_timer := Some 100,
             visualizer_timer := Some 50\<rparr>)"

definition next_track :: "env \<Rightarrow> player \<Rightarrow> py_error + player" where
  "next_track e s =
     (if playlist s \<noteq> []
      then
        (let s1 = (if is_shuffled s
                   then s\<lparr>current_track_index :=
                            randint (entropy e) 0 (int (length (playlist s)) - 1)\<rparr>
                   else s\<lparr>current_track_index :=
                            (current_track_index s + 1) mod int (length (playlist s))\<rparr>)
         in if \<not> is_repeated s1 \<and> current_track_index s1 = 0 \<and> get_pos e = - 1
            then Inr (toggle_play s1)
            else play_track e s1)
      else Inr s)"

definition prev_track :: "env \<Rightarrow> player \<Rightarrow> py_error + player" where
  "prev_track e s =
     (if playlist s \<noteq> []
      then
        (let s1 = (if is_shuffled s
                   then s\<lparr>current_track_index :=
                            randint (entropy e) 0 (int (length (playlist s)) - 1)\<rparr>
                   else s\<lparr>current_track_index :=
                            (current_track_index s - 1) mod int (length (playlist s))\<rparr>)
         in play_track e s1)
      else Inr s)"

definition update_progress :: "env \<Rightarrow> player \<Rightarrow> player" where
  \<comment> \<open>the slot of \<open>progress_timer\<close>; \<open>progress_bar\<close> is the last argument of \<open>setValue\<close>\<close>
  "update_progress e s =
     (if get_busy e
      then
        (let current_pos = real_of_int (get_pos e) / 1000
         in if playlist s \<noteq> [] \<and> current_track_index s < int (length (playlist s))
            then (case py_index (playlist s) (current_track_index s) of
                    Inl err \<Rightarrow> s
                  | Inr track \<Rightarrow>
                      (case mp3_length e track of
                         None \<Rightarrow> s
                       | Some total_length \<Rightarrow>
                           s\<lparr>progress_bar :=
                                (if total_length > 0
                                 then py_int (current_pos / total_length * 100) else 0),
                              track_label :=
                                Track_Progress (get_track_metadata e track)
                                  (py_int current_pos) (py_int total_length)\<rparr>))
            else s)
      else s)"

definition toggle_shuffle :: "player \<Rightarrow> player" where
  "toggle_shuffle s =
     (let s1 = s\<lparr>is_shuffled := \<not> is_shuffled s\<rparr>
      in s1\<lparr>shuffle_btn := (if \<not> is_shuffled s1 then ''Shuffle'' else ''Unshuffle'')\<rparr>)"

definition toggle_repeat :: "player \<Rightarrow> player" where
  "toggle_repeat s =
     (let s1 = s\<lparr>is_repeated := \<not> is_repeated s\<rparr>
      in s1\<lparr>repeat_btn := (if \<not> is_repeated s1 then ''Repeat'' else ''No Repeat'')\<rparr>)"

definition save_playlist :: "env \<Rightarrow> string \<Rightarrow> disk \<Rightarrow> player \<Rightarrow> py_error + player \<times> disk" where
  \<comment> \<open>\<open>file_path\<close> is what the save dialog returned, empty when it was cancelled\<close>
  "save_playlist e file_path d s =
     (if playlist s \<noteq> []
      then (if file_path \<noteq> []
            then (if can_write e file_path
                  then Inr (s\<lparr>dialogs := dialogs s @ [Save_Success]\<rparr>,
                            d(file_path \<mapsto> Json_Paths (playlist s)))
                  else Inl OSError)
            else Inr (s, d))
      else Inr (s\<lparr>dialogs := dialogs s @ [No_Playlist]\<rparr>, d))"

fun load_loop :: "env \<Rightarrow> string list \<Rightarrow> player \<Rightarrow> player" where
  "load_loop e [] s = s\<lparr>dialogs := dialogs s @ [Load_Success]\<rparr>"
| "load_loop e (track # tracks) s =
     (let track_name = get_track_metadata e track
      in if endswith (lower track) ''.mp3''
         then (case mp3_length e track of
                 None \<Rightarrow> s\<lparr>dialogs := dialogs s @ [Load_Error]\<rparr>
               | Some total_length \<Rightarrow>
                   load_loop e tracks
                     (s\<lparr>playlist_widget :=
                          playlist_widget s @ [(track_name, py_int total_length)]\<rparr>))
         else load_loop e tracks
                (s\<lparr>playlist_widget := playlist_widget s @ [(track_name, 0)]\<rparr>))"

definition load_playlist :: "env \<Rightarrow> string \<Rightarrow> disk \<Rightarrow> player \<Rightarrow> player" where
  \<comment> \<open>\<open>file_path\<close> is what the open dialog returned, empty when it was cancelled\<close>
  "load_playlist e file_path d s =
     (if file_path \<noteq> []
      then (case d file_path of
              Some (Json_Paths paths) \<Rightarrow>
                load_loop e paths (s\<lparr>playlist := paths, playlist_widget := []\<rparr>)
            | _ \<Rightarrow> s\<lparr>dialogs := dialogs s @ [Load_Error]\<rparr>)
      else s)"

subsection \<open>The operations that assign the playlist or the current index\<close>

text \<open>
  One constructor per method that assigns \<open>self.playlist\<close> or
  \<open>self.current_track_index\<close>, with what the GUI hands to it. \<open>enabled\<close> says what
  the GUI can hand over: the row of a double-clicked item is a row of the list widget.
\<close>

datatype operation =
    Add_Tracks "string list"
  | Drop_Event "string list"
  | Play_Selected_Track int
  | Next_Track
  | Prev_Track
  | Load_Playlist string disk

fun apply_operation :: "env \<Rightarrow> operation \<Rightarrow> player \<Rightarrow> py_error + player" where
  "apply_operation e (Add_Tracks files) s = Inr (add_tracks e files s)"
| "apply_operation e (Drop_Event urls) s = Inr (dropEvent e urls s)"
| "apply_operation e (Play_Selected_Track row) s = play_selected_track e row s"
| "apply_operation e Next_Track s = next_track e s"
| "apply_operation e Prev_Track s = prev_track e s"
| "apply_operation e (Load_Playlist file_path d) s = Inr (load_playlist e file_path d s)"

fun enabled :: "operation \<Rightarrow> player \<Rightarrow> bool" where
  "enabled (Play_Selected_Track row) s = (0 \<le> row \<and> row < int (length (playlist_widget s)))"
| "enabled _ s = True"

fun is_load :: "operation \<Rightarrow> bool" where
  "is_load (Load_Playlist file_path d) = True"
| "is_load _ = False"

definition index_in_bounds :: "player \<Rightarrow> bool" where
  "index_in_bounds s =
     (playlist s = [] \<or>
      (0 \<le> current_track_index s \<and> current_track_index s < int (length (playlist s))))"

definition player_inv :: "player \<Rightarrow> bool" where
  "player_inv s =
     (length (playlist_widget s) \<le> length (playlist s) \<and>
      0 \<le> current_track_index s \<and>
      (current_track_index s = 0 \<or> current_track_index s < int (length (playlist s))))"

text \<open>
  \<open>index_in_bounds\<close> is the bound on the current index; \<open>player_inv\<close> adds what makes
  it inductive: the list widget has no more rows than the playlist has entries, and over
  an empty playlist the index is \<open>0\<close>.
\<close>

definition mp3_entries_readable :: "env \<Rightarrow> string list \<Rightarrow> bool" where
  \<comment> \<open>no entry makes the \<open>MP3(track)\<close> of the loop of \<open>load_playlist\<close> raise\<close>
  "mp3_entries_readable e ps =
     list_all (\<lambda>p. \<not> endswith (lower p) ''.mp3'' \<or> mp3_length e p \<noteq> None) ps"

subsection \<open>The volume slider\<close>

definition volume_slider_min :: int where
  \<comment> \<open>\<open>self.volume_slider.setRange(0, 100)\<close>\<close>
  "volume_slider_min = 0"

definition volume_slider_max :: int where
  "volume_slider_max = 100"

subsection \<open>Sample objects\<close>

definition two_tracks :: player where
  "two_tracks = init_player\<lparr>playlist := [''a.mp3'', ''b.flac''],
                            playlist_widget := [(''a.mp3'', 180), (''b.flac'', 0)]\<rparr>"

definition quiet_env :: env where
  \<comment> \<open>nothing is playing, and only \<open>a.mp3\<close> is an MP3 file that can be read\<close>
  "quiet_env =
     \<lparr> entropy = 0, get_pos = - 1, get_busy = False,
       mp3_length = (\<lambda>p. if p = ''a.mp3'' then Some 180 else None),
       tag_title = (\<lambda>p. None), mixer_load_ok = (\<lambda>p. True), can_write = (\<lambda>p. True) \<rparr>"

definition shuffled_two :: player where
  "shuffled_two = two_tracks\<lparr>is_shuffled := True\<rparr>"

definition wav_pair :: player where
  "wav_pair = init_player\<lparr>playlist := [''/music/a.wav'', ''/music/gone.wav''],
                          playlist_widget := [(''a.wav'', 0), (''gone.wav'', 0)]\<rparr>"

definition music_disk :: disk where
  "music_disk = (\<lambda>p. if p = ''/music/a.wav'' then Some Other_Content else None)"

definition at_last_track :: player where
  "at_last_track = two_tracks\<lparr>current_track_index := 1\<rparr>"

definition one_path_disk :: disk where
  "one_path_disk = (\<lambda>p. if p = ''/tmp/one.json'' then Some (Json_Paths [''c.wav'']) else None)"

definition last_track_played :: player where
  "last_track_played =
     two_tracks\<lparr>current_track_index := 1, is_playing := True, play_btn := ''Pause'',
                progress_timer := Some 1000, equalizer_timer := Some 100,
                visualizer_timer := Some 50,
                mixer_calls := [Load ''b.flac'', Play]\<rparr>"

section \<open>Properties\<close>

subsection \<open>Auxiliary facts\<close>

lemma randint_range: "a \<le> b \<Longrightarrow> a \<le> randint e a b \<and> randint e a b \<le> b"
  by (simp add: randint_def) (smt (verit) pos_mod_bound pos_mod_sign)

lemma py_index_in_range:
  "0 \<le> i \<Longrightarrow> i < int (length xs) \<Longrightarrow> py_index xs i = Inr (xs ! nat i)"
  by (simp add: py_index_def)

lemma play_track_in_range:
  assumes "0 \<le> current_track_index s" "current_track_index s < int (length (playlist s))"
  shows "\<exists>s'. play_track e s = Inr s' \<and> playlist s' = playlist s
           \<and> current_track_index s' = current_track_index s
           \<and> is_shuffled s' = is_shuffled s \<and> is_repeated s' = is_repeated s
           \<and> crossfade_duration s' = crossfade_duration s
           \<and> playlist_widget s' = playlist_widget s"
  using assms by (simp add: play_track_def py_index_in_range Let_def)

lemma toggle_play_fields:
  "playlist (toggle_play s) = playlist s \<and>
   current_track_index (toggle_play s) = current_track_index s \<and>
   is_shuffled (toggle_play s) = is_shuffled s \<and> is_repeated (toggle_play s) = is_repeated s \<and>
   crossfade_duration (toggle_play s) = crossfade_duration s \<and>
   playlist_widget (toggle_play s) = playlist_widget s"
  by (simp add: toggle_play_def)

lemma new_index_in_range:
  assumes "playlist s \<noteq> []"
  shows "0 \<le> randint k 0 (int (length (playlist s)) - 1)"
    and "randint k 0 (int (length (playlist s)) - 1) < int (length (playlist s))"
    and "0 \<le> i mod int (length (playlist s))"
    and "i mod int (length (playlist s)) < int (length (playlist s))"
proof -
  have "(0::int) \<le> int (length (playlist s)) - 1" using assms by (cases "playlist s") auto
  from randint_range[OF this, of k]
  show "0 \<le> randint k 0 (int (length (playlist s)) - 1)"
    and "randint k 0 (int (length (playlist s)) - 1) < int (length (playlist s))" by auto
  show "0 \<le> i mod int (length (playlist s))"
    and "i mod int (length (playlist s)) < int (length (playlist s))" using assms by auto
qed

lemma next_track_result:
  "\<exists>s'. next_track e s = Inr s' \<and> playlist s' = playlist s \<and>
     is_shuffled s' = is_shuffled s \<and> is_repeated s' = is_repeated s \<and>
     crossfade_duration s' = crossfade_duration s \<and>
     playlist_widget s' = playlist_widget s \<and>
     current_track_index s' =
       (if playlist s = [] then current_track_index s
        else if is_shuffled s then randint (entropy e) 0 (int (length (playlist s)) - 1)
        else (current_track_index s + 1) mod int (length (playlist s)))"
proof (cases "playlist s = []")
  case True
  then show ?thesis by (simp add: next_track_def)
next
  case False
  define j where "j = (if is_shuffled s then randint (entropy e) 0 (int (length (playlist s)) - 1)
        else (current_track_index s + 1) mod int (length (playlist s)))"
  let ?s1 = "s\<lparr>current_track_index := j\<rparr>"
  have r: "0 \<le> current_track_index ?s1" "current_track_index ?s1 < int (length (playlist ?s1))"
    using new_index_in_range[OF False] by (auto simp: j_def)
  have n: "next_track e s =
             (if \<not> is_repeated s \<and> j = 0 \<and> get_pos e = - 1
              then Inr (toggle_play ?s1) else play_track e ?s1)"
    using False by (simp add: next_track_def j_def Let_def)
  show ?thesis
  proof (cases "\<not> is_repeated s \<and> j = 0 \<and> get_pos e = - 1")
    case True
    then show ?thesis using n False by (simp add: toggle_play_fields j_def)
  next
    case stay: False
    from play_track_in_range[OF r, of e] obtain s' where
      "play_track e ?s1 = Inr s'" "playlist s' = playlist ?s1"
      "current_track_index s' = current_track_index ?s1"
      "is_shuffled s' = is_shuffled ?s1" "is_repeated s' = is_repeated ?s1"
      "crossfade_duration s' = crossfade_duration ?s1"
      "playlist_widget s' = playlist_widget ?s1" by blast
    then show ?thesis using n stay False by (auto simp: j_def)
  qed
qed

lemma prev_track_result:
  "\<exists>s'. prev_track e s = Inr s' \<and> playlist s' = playlist s \<and>
     is_shuffled s' = is_shuffled s \<and> is_repeated s' = is_repeated s \<and>
     crossfade_duration s' = crossfade_duration s \<and>
     playlist_widget s' = playlist_widget s \<and>
     current_track_index s' =
       (if playlist s = [] then current_track_index s
        else if is_shuffled s then randint (entropy e) 0 (int (length (playlist s)) - 1)
        else (current_track_index s - 1) mod int (length (playlist s)))"
proof (cases "playlist s = []")
  case True
  then show ?thesis by (simp add: prev_track_def)
next
  case False
  define j where "j = (if is_shuffled s then randint (entropy e) 0 (int (length (playlist s)) - 1)
        else (current_track_index s - 1) mod int (length (playlist s)))"
  let ?s1 = "s\<lparr>current_track_index := j\<rparr>"
  have r: "0 \<le> current_track_index ?s1" "current_track_index ?s1 < int (length (playlist ?s1))"
    using new_index_in_range[OF False] by (auto simp: j_def)
  have n: "prev_track e s = play_track e ?s1"
    using False by (simp add: prev_track_def j_def Let_def)
  from play_track_in_range[OF r, of e] obtain s' where
      "play_track e ?s1 = Inr s'" "playlist s' = playlist ?s1"
      "current_track_index s' = current_track_index ?s1"
      "is_shuffled s' = is_shuffled ?s1" "is_repeated s' = is_repeated ?s1"
      "crossfade_duration s' = crossfade_duration ?s1"
      "playlist_widget s' = playlist_widget ?s1" by blast
  then show ?thesis using n False by (auto simp: j_def)
qed

subsection \<open>Advancing without shuffle\<close>

text \<open>
  C7. For every non-empty playlist of length \<open>n\<close> and every current index \<open>i\<close>, with
  shuffle disabled, \<open>next_track\<close> returns normally and sets the current index to
  \<open>(i + 1) mod n\<close>.
\<close>

theorem next_track_sequential:
  assumes "playlist s \<noteq> []" and "\<not> is_shuffled s"
  shows "\<exists>s'. next_track e s = Inr s' \<and>
           current_track_index s' = (current_track_index s + 1) mod int (length (playlist s))"
proof -
  let ?s1 = "s\<lparr>current_track_index := (current_track_index s + 1) mod int (length (playlist s))\<rparr>"
  have r: "0 \<le> current_track_index ?s1 \<and> current_track_index ?s1 < int (length (playlist ?s1))"
    using assms(1) by simp
  from play_track_in_range[of ?s1 e] r
  obtain s' where "play_track e ?s1 = Inr s'" "current_track_index s' = current_track_index ?s1"
    by blast
  then show ?thesis
    using assms by (auto simp: next_track_def Let_def toggle_play_fields)
qed

theorem next_track_sequential_witness:
  "playlist two_tracks \<noteq> [] \<and> \<not> is_shuffled two_tracks \<and>
   (\<exists>s'. next_track quiet_env two_tracks = Inr s' \<and> current_track_index s' = 1)"
  using next_track_sequential[of two_tracks quiet_env]
  by (simp add: two_tracks_def init_player_def)

subsection \<open>Advancing with shuffle\<close>

text \<open>
  C1, as stated: with shuffle enabled and more than one track, the index that
  \<open>next_track\<close> selects differs from the current one. The method draws
  \<open>random.randint(0, len(self.playlist) - 1)\<close> over the whole playlist, so the draw can
  be the current index: with two tracks at index 0 and the draw 0, the index stays 0.
\<close>

theorem next_track_shuffle_counterexample:
  "1 < length (playlist shuffled_two) \<and> is_shuffled shuffled_two \<and>
   \<not> isl (next_track quiet_env shuffled_two) \<and>
   current_track_index (projr (next_track quiet_env shuffled_two)) =
     current_track_index shuffled_two"
  by (simp add: shuffled_two_def two_tracks_def init_player_def quiet_env_def
        next_track_def randint_def toggle_play_def)

text \<open>
  C1, amended: with shuffle enabled and more than one track, \<open>next_track\<close> returns
  normally and the index it selects is the draw of \<open>random.randint\<close> from
  \<open>0 .. length - 1\<close>: it is within the bounds of the playlist, and nothing keeps it
  from being the current index.
\<close>

theorem next_track_shuffle_range:
  assumes "1 < length (playlist s)" and "is_shuffled s"
  shows "\<exists>s'. next_track e s = Inr s' \<and>
           current_track_index s' = randint (entropy e) 0 (int (length (playlist s)) - 1) \<and>
           0 \<le> current_track_index s' \<and> current_track_index s' < int (length (playlist s))"
proof -
  have ne: "playlist s \<noteq> []" using assms(1) by auto
  from next_track_result[of e s] obtain s' where
    "next_track e s = Inr s'"
    "current_track_index s' = randint (entropy e) 0 (int (length (playlist s)) - 1)"
    using ne assms(2) by auto
  then show ?thesis using new_index_in_range(1,2)[OF ne, of "entropy e"] by auto
qed

theorem next_track_shuffle_range_witness:
  "1 < length (playlist shuffled_two) \<and> is_shuffled shuffled_two \<and>
   (\<exists>s'. next_track quiet_env shuffled_two = Inr s' \<and>
          current_track_index s' = 0 \<and> 0 \<le> current_track_index s' \<and>
          current_track_index s' < 2)"
  using next_track_shuffle_range[of shuffled_two quiet_env]
  by (simp add: shuffled_two_def two_tracks_def init_player_def quiet_env_def randint_def)

subsection \<open>Going back\<close>

text \<open>
  C2, as stated: for a non-empty playlist \<open>prev_track\<close> sets the index to
  \<open>(current - 1) mod length\<close> whether or not shuffle is enabled. The method has a
  shuffle branch of its own, which draws a random index: with two tracks at index 0,
  shuffle on and the draw 0, the index becomes 0 and not 1.
\<close>

theorem prev_track_shuffle_counterexample:
  "playlist shuffled_two \<noteq> [] \<and> \<not> isl (prev_track quiet_env shuffled_two) \<and>
   current_track_index (projr (prev_track quiet_env shuffled_two)) \<noteq>
     (current_track_index shuffled_two - 1) mod int (length (playlist shuffled_two))"
  by (simp add: shuffled_two_def two_tracks_def init_player_def quiet_env_def
        prev_track_def randint_def play_track_def py_index_def)

text \<open>
  C2, amended: for a non-empty playlist \<open>prev_track\<close> returns normally; with shuffle
  disabled it sets the index to \<open>(current - 1) mod length\<close>, with shuffle enabled to
  the draw of \<open>random.randint\<close> from \<open>0 .. length - 1\<close>.
\<close>

theorem prev_track_index:
  assumes "playlist s \<noteq> []"
  shows "\<exists>s'. prev_track e s = Inr s' \<and>
           current_track_index s' =
             (if is_shuffled s then randint (entropy e) 0 (int (length (playlist s)) - 1)
              else (current_track_index s - 1) mod int (length (playlist s)))"
  using prev_track_result[of e s] assms by auto

theorem prev_track_index_witness:
  "playlist two_tracks \<noteq> [] \<and>
   (\<exists>s'. prev_track quiet_env two_tracks = Inr s' \<and> current_track_index s' = 1)"
  using prev_track_index[of two_tracks quiet_env]
  by (simp add: two_tracks_def init_player_def)

subsection \<open>What \<open>next_track\<close> and \<open>prev_track\<close> leave alone\<close>

text \<open>
  C10. For every state and environment, \<open>next_track\<close> and \<open>prev_track\<close> return
  normally and leave the playlist, the shuffle flag, the repeat flag and the crossfade
  duration as they were.
\<close>

theorem next_prev_keep_settings:
  "\<exists>s1 s2. next_track e s = Inr s1 \<and> prev_track e s = Inr s2 \<and>
     playlist s1 = playlist s \<and> is_shuffled s1 = is_shuffled s \<and>
     is_repeated s1 = is_repeated s \<and> crossfade_duration s1 = crossfade_duration s \<and>
     playlist s2 = playlist s \<and> is_shuffled s2 = is_shuffled s \<and>
     is_repeated s2 = is_repeated s \<and> crossfade_duration s2 = crossfade_duration s"
  using next_track_result[of e s] prev_track_result[of e s] by blast

subsection \<open>The shuffle and repeat toggles\<close>

text \<open>
  C9. For every state, \<open>toggle_shuffle\<close> flips the shuffle flag and applied twice
  restores it; apart from that flag it changes the text of its button only, which follows
  the flag, so that two more applications undo nothing of a first one. The same holds of
  \<open>toggle_repeat\<close> and the repeat flag.
\<close>

theorem toggles_flip_one_flag:
  "is_shuffled (toggle_shuffle s) = (\<not> is_shuffled s) \<and>
   is_shuffled (toggle_shuffle (toggle_shuffle s)) = is_shuffled s \<and>
   toggle_shuffle s = s\<lparr>is_shuffled := \<not> is_shuffled s,
                         shuffle_btn := (if is_shuffled s then ''Shuffle'' else ''Unshuffle'')\<rparr> \<and>
   toggle_shuffle (toggle_shuffle (toggle_shuffle s)) = toggle_shuffle s \<and>
   is_repeated (toggle_repeat s) = (\<not> is_repeated s) \<and>
   is_repeated (toggle_repeat (toggle_repeat s)) = is_repeated s \<and>
   toggle_repeat s = s\<lparr>is_repeated := \<not> is_repeated s,
                        repeat_btn := (if is_repeated s then ''Repeat'' else ''No Repeat'')\<rparr> \<and>
   toggle_repeat (toggle_repeat (toggle_repeat s)) = toggle_repeat s"
  by (simp add: toggle_shuffle_def toggle_repeat_def Let_def)

subsection \<open>Volume\<close>

text \<open>
  C6, as stated: \<open>adjust_volume\<close> clamps the gain into \<open>[0, 1]\<close>, so that a request
  for \<open>2.0\<close> gives \<open>1.0\<close> and one for \<open>-1.0\<close> gives \<open>0.0\<close>. The method takes the
  slider's integer, divides it by 100 and hands the quotient to the mixer as it is: the
  values 200 and -100 reach the mixer as \<open>2\<close> and \<open>-1\<close>.
\<close>

theorem adjust_volume_counterexample:
  "mixer_calls (adjust_volume 200 init_player) = [Set_volume 2] \<and>
   mixer_calls (adjust_volume (- 100) init_player) = [Set_volume (- 1)]"
  by (simp add: adjust_volume_def init_player_def)

text \<open>
  C6, amended: for every value within the range of the volume slider, \<open>0 .. 100\<close>,
  \<open>adjust_volume\<close> hands \<open>value / 100\<close> to the mixer and changes nothing else, and
  that gain lies in \<open>[0, 1]\<close>; the method itself does not clamp.
\<close>

theorem adjust_volume_slider_range:
  assumes "volume_slider_min \<le> v" and "v \<le> volume_slider_max"
  shows "adjust_volume v s = s\<lparr>mixer_calls := mixer_calls s @ [Set_volume (real_of_int v / 100)]\<rparr>
         \<and> 0 \<le> real_of_int v / 100 \<and> real_of_int v / 100 \<le> 1"
  using assms by (simp add: adjust_volume_def volume_slider_min_def volume_slider_max_def)

theorem adjust_volume_slider_range_witness:
  "volume_slider_min \<le> 50 \<and> 50 \<le> volume_slider_max \<and>
   mixer_calls (adjust_volume 50 init_player) = [Set_volume (1 / 2)]"
  using adjust_volume_slider_range[of 50 init_player]
  by (simp add: volume_slider_min_def volume_slider_max_def init_player_def)

subsection \<open>Adding files\<close>

lemma add_one_playlist:
  "playlist (add_one e f s) =
     playlist s @ (if lower (splitext_ext f) \<in> set SUPPORTED_FORMATS then [f] else [])"
  by (simp add: add_one_def Let_def split: option.split)

lemma add_one_dialogs_grow: "set (dialogs s) \<subseteq> set (dialogs (add_one e f s))"
  by (auto simp: add_one_def Let_def split: option.split)

lemma add_one_unsupported:
  "lower (splitext_ext f) \<notin> set SUPPORTED_FORMATS \<Longrightarrow>
   add_one e f s = s\<lparr>dialogs := dialogs s @ [Unsupported_Format (basename f)]\<rparr>"
  by (simp add: add_one_def Let_def)

lemma add_loop_playlist:
  "playlist (add_loop e files s) =
     playlist s @ filter (\<lambda>g. lower (splitext_ext g) \<in> set SUPPORTED_FORMATS) files"
  by (induction files arbitrary: s) (simp_all add: add_one_playlist)

lemma add_loop_dialogs_grow: "set (dialogs s) \<subseteq> set (dialogs (add_loop e files s))"
proof (induction files arbitrary: s)
  case Nil
  show ?case by simp
next
  case (Cons f files)
  have "set (dialogs s) \<subseteq> set (dialogs (add_one e f s))" by (rule add_one_dialogs_grow)
  also have "\<dots> \<subseteq> set (dialogs (add_loop e files (add_one e f s)))" by (rule Cons.IH)
  finally show ?case by simp
qed

lemma add_loop_reports:
  "f \<in> set files \<Longrightarrow> lower (splitext_ext f) \<notin> set SUPPORTED_FORMATS \<Longrightarrow>
   Unsupported_Format (basename f) \<in> set (dialogs (add_loop e files s))"
proof (induction files arbitrary: s)
  case Nil
  then show ?case by simp
next
  case (Cons g files)
  show ?case
  proof (cases "f = g")
    case True
    have "Unsupported_Format (basename f) \<in> set (dialogs (add_one e g s))"
      using True Cons.prems(2) by (simp add: add_one_unsupported)
    then show ?thesis using add_loop_dialogs_grow[of "add_one e g s" e files] by auto
  next
    case False
    then have "f \<in> set files" using Cons.prems(1) by simp
    from Cons.IH[OF this Cons.prems(2)] show ?thesis by simp
  qed
qed

text \<open>
  C8, as stated: a file whose format is not among the supported ones is refused with an
  unsupported-format error and is not appended. \<open>add_tracks\<close> and \<open>dropEvent\<close> judge
  a file by the extension of its name and by nothing it holds. A file named
  \<open>junk.mp3\<close> that \<open>MP3\<close> cannot read is appended, and the box shown for it is
  ``File Error''; a file named \<open>notes.wav\<close> is appended without any box, whatever it
  holds.
\<close>

theorem unreadable_file_counterexample:
  "mp3_length quiet_env ''junk.mp3'' = None \<and>
   playlist (add_tracks quiet_env [''junk.mp3''] init_player) = [''junk.mp3''] \<and>
   dialogs (add_tracks quiet_env [''junk.mp3''] init_player) = [File_Error ''junk.mp3''] \<and>
   playlist (dropEvent quiet_env [''junk.mp3''] init_player) = [''junk.mp3''] \<and>
   dialogs (dropEvent quiet_env [''junk.mp3''] init_player) = [File_Error ''junk.mp3''] \<and>
   playlist (add_tracks quiet_env [''notes.wav''] init_player) = [''notes.wav''] \<and>
   dialogs (add_tracks quiet_env [''notes.wav''] init_player) = []"
proof -
  have x: "lower (splitext_ext ''junk.mp3'') = ''.mp3''" "basename ''junk.mp3'' = ''junk.mp3''"
    "lower (splitext_ext ''notes.wav'') = ''.wav''"
    by code_simp+
  show ?thesis
    by (simp add: add_tracks_def dropEvent_def add_one_def x SUPPORTED_FORMATS_def
          quiet_env_def init_player_def Let_def)
qed

text \<open>
  C8, amended: for every file handed to \<open>add_tracks\<close> or to \<open>dropEvent\<close> whose
  lower-cased extension is not among \<open>SUPPORTED_FORMATS\<close>, the method shows an
  ``Unsupported Format'' warning that names it and does not append it: what the call
  appends to the playlist are files handed to it, that one not among them. Handed that
  file alone, the method changes nothing but the boxes shown.
\<close>

theorem unsupported_extension_rejected:
  assumes "f \<in> set files" and "lower (splitext_ext f) \<notin> set SUPPORTED_FORMATS"
  shows "Unsupported_Format (basename f) \<in> set (dialogs (add_tracks e files s)) \<and>
         (\<exists>added. playlist (add_tracks e files s) = playlist s @ added \<and>
                  set added \<subseteq> set files \<and> f \<notin> set added) \<and>
         add_tracks e [f] s = s\<lparr>dialogs := dialogs s @ [Unsupported_Format (basename f)]\<rparr> \<and>
         Unsupported_Format (basename f) \<in> set (dialogs (dropEvent e files s)) \<and>
         (\<exists>added. playlist (dropEvent e files s) = playlist s @ added \<and>
                  set added \<subseteq> set files \<and> f \<notin> set added) \<and>
         dropEvent e [f] s = s\<lparr>dialogs := dialogs s @ [Unsupported_Format (basename f)]\<rparr>"
proof -
  let ?added = "filter (\<lambda>g. lower (splitext_ext g) \<in> set SUPPORTED_FORMATS) files"
  have a: "playlist (add_loop e files s) = playlist s @ ?added"
    by (rule add_loop_playlist)
  have b: "set ?added \<subseteq> set files \<and> f \<notin> set ?added"
    using assms(2) by auto
  have c: "\<exists>added. playlist (add_loop e files s) = playlist s @ added \<and>
                  set added \<subseteq> set files \<and> f \<notin> set added"
    using a b by blast
  have d: "Unsupported_Format (basename f) \<in> set (dialogs (add_loop e files s))"
    using assms by (rule add_loop_reports)
  have g: "add_loop e [f] s = s\<lparr>dialogs := dialogs s @ [Unsupported_Format (basename f)]\<rparr>"
    using assms(2) by (simp add: add_one_unsupported)
  show ?thesis
    using c d g by (simp add: add_tracks_def dropEvent_def)
qed

theorem unsupported_extension_rejected_witness:
  "''notes.TXT'' \<in> set [''a.mp3'', ''notes.TXT''] \<and>
   lower (splitext_ext ''notes.TXT'') \<notin> set SUPPORTED_FORMATS \<and>
   Unsupported_Format ''notes.TXT''
     \<in> set (dialogs (add_tracks quiet_env [''a.mp3'', ''notes.TXT''] init_player)) \<and>
   add_tracks quiet_env [''notes.TXT''] init_player =
     init_player\<lparr>dialogs := [Unsupported_Format ''notes.TXT'']\<rparr> \<and>
   dropEvent quiet_env [''notes.TXT''] init_player =
     init_player\<lparr>dialogs := [Unsupported_Format ''notes.TXT'']\<rparr>"
proof -
  have x: "lower (splitext_ext ''notes.TXT'') = ''.txt''"
     "basename ''notes.TXT'' = ''notes.TXT''"
    by code_simp+
  have h: "lower (splitext_ext ''notes.TXT'') \<notin> set SUPPORTED_FORMATS"
    by (simp add: x SUPPORTED_FORMATS_def)
  have m: "''notes.TXT'' \<in> set [''a.mp3'', ''notes.TXT'']" by simp
  have p: "dialogs init_player = []" by (simp add: init_player_def)
  show ?thesis
    using unsupported_extension_rejected[OF m h, of quiet_env init_player] h
    by (simp add: x p)
qed

subsection \<open>Saving and loading\<close>

lemma load_loop_playlist: "playlist (load_loop e ps s) = playlist s"
  by (induction ps arbitrary: s) (simp_all add: Let_def split: option.split)

lemma load_loop_dialogs:
  "dialogs (load_loop e ps s) =
     dialogs s @ [if mp3_entries_readable e ps then Load_Success else Load_Error]"
  by (induction ps arbitrary: s)
     (auto simp: mp3_entries_readable_def Let_def split: option.split)

lemma load_loop_index: "current_track_index (load_loop e ps s) = current_track_index s"
  by (induction ps arbitrary: s) (simp_all add: Let_def split: option.split)

lemma load_loop_widget:
  "length (playlist_widget (load_loop e ps s)) \<le> length (playlist_widget s) + length ps"
proof (induction ps arbitrary: s)
  case Nil
  show ?case by simp
next
  case (Cons p ps)
  show ?case
    using Cons.IH[of "s\<lparr>playlist_widget := playlist_widget s @ [(get_track_metadata e p, 0)]\<rparr>"]
      Cons.IH[of "s\<lparr>playlist_widget := playlist_widget s @ [(get_track_metadata e p, py_int (the (mp3_length e p)))]\<rparr>"]
    by (auto simp: Let_def split: option.split)
qed

text \<open>
  C3, as stated: after \<open>save_playlist\<close> and \<open>load_playlist\<close> the playlist holds the
  saved paths that still resolve, in order, the others are skipped and their number is
  reported. \<open>load_playlist\<close> never looks whether a path resolves: with
  \<open>/music/gone.wav\<close> absent from the disk, the loaded playlist still holds it, and the
  only report is the ``Playlist loaded successfully'' box.
\<close>

theorem save_load_counterexample:
  "music_disk ''/music/gone.wav'' = None \<and>
   \<not> isl (save_playlist quiet_env ''/tmp/list.json'' music_disk wav_pair) \<and>
   playlist (load_playlist quiet_env ''/tmp/list.json''
              (snd (projr (save_playlist quiet_env ''/tmp/list.json'' music_disk wav_pair)))
              init_player) = [''/music/a.wav'', ''/music/gone.wav''] \<and>
   dialogs (load_playlist quiet_env ''/tmp/list.json''
              (snd (projr (save_playlist quiet_env ''/tmp/list.json'' music_disk wav_pair)))
              init_player) = [Load_Success]"
proof -
  have x: "\<not> endswith (lower ''/music/a.wav'') ''.mp3''"
    "\<not> endswith (lower ''/music/gone.wav'') ''.mp3''"
    by code_simp+
  show ?thesis
    by (simp add: music_disk_def save_playlist_def wav_pair_def init_player_def quiet_env_def
          load_playlist_def x Let_def)
qed

text \<open>
  C3, amended: saving a non-empty playlist to a file that can be written and loading that
  file sets the playlist to exactly the saved paths, in order, whether or not they still
  resolve. Nothing is skipped and no count is reported: the load ends with the success
  box when \<open>MP3\<close> reads every entry ending in \<open>.mp3\<close>, and with the ``Load Error'' box
  otherwise, the playlist being replaced in both cases.
\<close>

theorem save_load_keeps_every_path:
  assumes "playlist s \<noteq> []" and "file_path \<noteq> []" and "can_write e file_path"
  shows "\<exists>s' d'. save_playlist e file_path d s = Inr (s', d') \<and>
           playlist (load_playlist e' file_path d' t) = playlist s \<and>
           dialogs (load_playlist e' file_path d' t) =
             dialogs t @ [if mp3_entries_readable e' (playlist s) then Load_Success else Load_Error]"
  using assms
  by (simp add: save_playlist_def load_playlist_def load_loop_playlist load_loop_dialogs)

theorem save_load_keeps_every_path_witness:
  "playlist wav_pair \<noteq> [] \<and> ''/tmp/list.json'' \<noteq> [] \<and> can_write quiet_env ''/tmp/list.json'' \<and>
   (\<exists>s' d'. save_playlist quiet_env ''/tmp/list.json'' music_disk wav_pair = Inr (s', d') \<and>
      playlist (load_playlist quiet_env ''/tmp/list.json'' d' init_player) =
        [''/music/a.wav'', ''/music/gone.wav''])"
proof -
  have h: "playlist wav_pair \<noteq> []" "''/tmp/list.json'' \<noteq> []"
    "can_write quiet_env ''/tmp/list.json''"
    by (simp_all add: wav_pair_def init_player_def quiet_env_def)
  from save_load_keeps_every_path[OF h, of music_disk quiet_env init_player]
  obtain s' d' where
    "save_playlist quiet_env ''/tmp/list.json'' music_disk wav_pair = Inr (s', d')"
    "playlist (load_playlist quiet_env ''/tmp/list.json'' d' init_player) = playlist wav_pair"
    by blast
  then show ?thesis using h by (auto simp: wav_pair_def init_player_def)
qed

subsection \<open>The bounds of the current index\<close>

lemma player_inv_bounds: "player_inv s \<Longrightarrow> index_in_bounds s"
  by (cases "playlist s") (auto simp: player_inv_def index_in_bounds_def)

lemma add_one_index: "current_track_index (add_one e f s) = current_track_index s"
  by (simp add: add_one_def Let_def split: option.split)

lemma add_one_inv: "player_inv s \<Longrightarrow> player_inv (add_one e f s)"
  by (auto simp: player_inv_def add_one_def Let_def split: option.split)

lemma add_loop_inv: "player_inv s \<Longrightarrow> player_inv (add_loop e files s)"
  by (induction files arbitrary: s) (simp_all add: add_one_inv)

lemma play_selected_inv:
  assumes "player_inv s" and "0 \<le> row" and "row < int (length (playlist_widget s))"
  shows "\<exists>s'. play_selected_track e row s = Inr s' \<and> player_inv s'"
proof -
  let ?s1 = "s\<lparr>current_track_index := row\<rparr>"
  have r: "0 \<le> current_track_index ?s1" "current_track_index ?s1 < int (length (playlist ?s1))"
    using assms by (auto simp: player_inv_def)
  from play_track_in_range[OF r, of e] obtain s' where
    "play_track e ?s1 = Inr s'" "playlist s' = playlist ?s1"
    "current_track_index s' = current_track_index ?s1"
    "playlist_widget s' = playlist_widget ?s1" by blast
  then show ?thesis using assms by (auto simp: play_selected_track_def player_inv_def)
qed

lemma next_track_inv: "player_inv s \<Longrightarrow> \<exists>s'. next_track e s = Inr s' \<and> player_inv s'"
proof -
  assume a: "player_inv s"
  from next_track_result[of e s] obtain s' where s':
    "next_track e s = Inr s'" "playlist s' = playlist s"
    "playlist_widget s' = playlist_widget s"
    "current_track_index s' =
       (if playlist s = [] then current_track_index s
        else if is_shuffled s then randint (entropy e) 0 (int (length (playlist s)) - 1)
        else (current_track_index s + 1) mod int (length (playlist s)))" by blast
  have "player_inv s'"
  proof (cases "playlist s = []")
    case True
    then show ?thesis using a s' by (auto simp: player_inv_def)
  next
    case False
    then show ?thesis using a s' new_index_in_range[OF False] by (auto simp: player_inv_def)
  qed
  then show ?thesis using s'(1) by blast
qed

lemma prev_track_inv: "player_inv s \<Longrightarrow> \<exists>s'. prev_track e s = Inr s' \<and> player_inv s'"
proof -
  assume a: "player_inv s"
  from prev_track_result[of e s] obtain s' where s':
    "prev_track e s = Inr s'" "playlist s' = playlist s"
    "playlist_widget s' = playlist_widget s"
    "current_track_index s' =
       (if playlist s = [] then current_track_index s
        else if is_shuffled s then randint (entropy e) 0 (int (length (playlist s)) - 1)
        else (current_track_index s - 1) mod int (length (playlist s)))" by blast
  have "player_inv s'"
  proof (cases "playlist s = []")
    case True
    then show ?thesis using a s' by (auto simp: player_inv_def)
  next
    case False
    then show ?thesis using a s' new_index_in_range[OF False] by (auto simp: player_inv_def)
  qed
  then show ?thesis using s'(1) by blast
qed

lemma load_playlist_index:
  "current_track_index (load_playlist e file_path d s) = current_track_index s"
  by (simp add: load_playlist_def load_loop_index split: option.split file_content.split)

lemma load_playlist_widget:
  "length (playlist_widget s) \<le> length (playlist s) \<Longrightarrow>
   length (playlist_widget (load_playlist e file_path d s))
     \<le> length (playlist (load_playlist e file_path d s))"
  using load_loop_widget[of e _ "s\<lparr>playlist := _, playlist_widget := []\<rparr>"]
  by (auto simp: load_playlist_def load_loop_playlist split: option.split file_content.split)

text \<open>
  C5, as stated: \<open>0 \<le> current_track_index < len(playlist)\<close>, unless the playlist is
  empty, holds after every operation that assigns the playlist or the index, loading
  included. \<open>load_playlist\<close> replaces the playlist and keeps the index: at index 1 of
  two tracks, loading a file of one path leaves index 1 over a playlist of length 1.
\<close>

theorem load_breaks_index_bounds:
  "index_in_bounds at_last_track \<and>
   playlist (load_playlist quiet_env ''/tmp/one.json'' one_path_disk at_last_track) = [''c.wav''] \<and>
   current_track_index (load_playlist quiet_env ''/tmp/one.json'' one_path_disk at_last_track) = 1 \<and>
   \<not> index_in_bounds (load_playlist quiet_env ''/tmp/one.json'' one_path_disk at_last_track)"
proof -
  have x: "\<not> endswith (lower ''c.wav'') ''.mp3''" by code_simp
  show ?thesis
    by (simp add: index_in_bounds_def at_last_track_def two_tracks_def init_player_def
          load_playlist_def one_path_disk_def x Let_def)
qed

text \<open>
  C5, amended: the bound holds in the initial state and after \<open>add_tracks\<close>,
  \<open>dropEvent\<close>, \<open>play_selected_track\<close>, \<open>next_track\<close> and \<open>prev_track\<close>, none of which
  raises, from every state that satisfies \<open>player_inv\<close>, which they preserve.
  \<open>load_playlist\<close> keeps the index it finds, so after it the bound holds only if that
  index is within the loaded playlist; it keeps the list widget no longer than the
  playlist.
\<close>

theorem index_bounds_kept_without_load:
  assumes "player_inv s" and "enabled op s"
  shows "player_inv init_player \<and>
         (\<exists>s'. apply_operation e op s = Inr s' \<and>
            (if is_load op
             then current_track_index s' = current_track_index s \<and>
                  length (playlist_widget s') \<le> length (playlist s')
             else player_inv s' \<and> index_in_bounds s'))"
proof -
  have i: "player_inv init_player" by (simp add: player_inv_def init_player_def)
  have "\<exists>s'. apply_operation e op s = Inr s' \<and>
            (if is_load op
             then current_track_index s' = current_track_index s \<and>
                  length (playlist_widget s') \<le> length (playlist s')
             else player_inv s' \<and> index_in_bounds s')"
  proof (cases op)
    case (Add_Tracks files)
    then show ?thesis using assms(1)
      by (simp add: add_tracks_def add_loop_inv player_inv_bounds)
  next
    case (Drop_Event urls)
    then show ?thesis using assms(1)
      by (simp add: dropEvent_def add_loop_inv player_inv_bounds)
  next
    case (Play_Selected_Track row)
    then show ?thesis using play_selected_inv[of s row e] assms
      by (auto simp: player_inv_bounds)
  next
    case Next_Track
    then show ?thesis using next_track_inv[OF assms(1), of e]
      by (auto simp: player_inv_bounds)
  next
    case Prev_Track
    then show ?thesis using prev_track_inv[OF assms(1), of e]
      by (auto simp: player_inv_bounds)
  next
    case (Load_Playlist file_path d)
    then show ?thesis using assms(1) load_playlist_widget[of s e file_path d]
      by (simp add: load_playlist_index player_inv_def)
  qed
  with i show ?thesis by blast
qed

theorem index_bounds_kept_without_load_witness:
  "player_inv at_last_track \<and> enabled (Play_Selected_Track 0) at_last_track \<and>
   (\<exists>s'. apply_operation quiet_env (Play_Selected_Track 0) at_last_track = Inr s' \<and>
          player_inv s' \<and> index_in_bounds s')"
proof -
  have h: "player_inv at_last_track" "enabled (Play_Selected_Track 0) at_last_track"
    by (simp_all add: player_inv_def at_last_track_def two_tracks_def init_player_def)
  from index_bounds_kept_without_load[OF h, of quiet_env] h show ?thesis by simp
qed

subsection \<open>The end of the last track\<close>

text \<open>
  C4, as stated: when the track at the last index ends by itself, not by a call of
  \<open>next_track\<close>, with repeat disabled, the session stops and the index does not wrap to
  0. No method handles the end of a track: once the mixer is idle the progress timer's
  slot leaves the object as it is, \<open>is_playing\<close> still set. And when \<open>next_track\<close> is
  called then, the index does wrap to 0.
\<close>

theorem track_end_counterexample:
  "\<not> is_repeated last_track_played \<and>
   current_track_index last_track_played = int (length (playlist last_track_played)) - 1 \<and>
   get_pos quiet_env = - 1 \<and> \<not> get_busy quiet_env \<and>
   is_playing (update_progress quiet_env last_track_played) \<and>
   \<not> isl (next_track quiet_env last_track_played) \<and>
   current_track_index (projr (next_track quiet_env last_track_played)) = 0"
  by (simp add: last_track_played_def two_tracks_def init_player_def quiet_env_def
        update_progress_def next_track_def toggle_play_def)

text \<open>
  C4, amended: after the track at the last index has ended (\<open>get_busy()\<close> false,
  \<open>get_pos() = -1\<close>), with shuffle and repeat disabled and \<open>is_playing\<close> set, the
  progress timer's slot changes nothing; a call of \<open>next_track\<close> then wraps the index
  to 0 and, instead of playing that track, pauses the mixer, clears \<open>is_playing\<close>,
  stops the three timers and sets the play button back to ``Play''.
\<close>

theorem next_after_last_track_ended:
  assumes "playlist s \<noteq> []" and "\<not> is_shuffled s" and "\<not> is_repeated s"
    and "current_track_index s = int (length (playlist s)) - 1"
    and "is_playing s" and "get_pos e = - 1" and "\<not> get_busy e"
  shows "update_progress e s = s \<and>
         next_track e s =
           Inr (s\<lparr>current_track_index := 0,
                  mixer_calls := mixer_calls s @ [Pause],
                  play_btn := ''Play'',
                  is_playing := False,
                  progress_timer := None,
                  equalizer_timer := None,
                  visualizer_timer := None\<rparr>)"
  using assms by (simp add: update_progress_def next_track_def toggle_play_def)

theorem next_after_last_track_ended_witness:
  "playlist last_track_played \<noteq> [] \<and> \<not> is_shuffled last_track_played \<and>
   \<not> is_repeated last_track_played \<and>
   current_track_index last_track_played = int (length (playlist last_track_played)) - 1 \<and>
   is_playing last_track_played \<and> get_pos quiet_env = - 1 \<and> \<not> get_busy quiet_env \<and>
   update_progress quiet_env last_track_played = last_track_played \<and>
   \<not> isl (next_track quiet_env last_track_played) \<and>
   \<not> is_playing (projr (next_track quiet_env last_track_played)) \<and>
   current_track_index (projr (next_track quiet_env last_track_played)) = 0"
proof -
  have h: "playlist last_track_played \<noteq> []" "\<not> is_shuffled last_track_played"
    "\<not> is_repeated last_track_played"
    "current_track_index last_track_played = int (length (playlist last_track_played)) - 1"
    "is_playing last_track_played" "get_pos quiet_env = - 1" "\<not> get_busy quiet_env"
    by (simp_all add: last_track_played_def two_tracks_def init_player_def quiet_env_def)
  from next_after_last_track_ended[OF h] h show ?thesis by simp
qed

end
